theory Spec2Isabelle
  imports Main "HOL-Library.Char_ord"
begin

section \<open>Memory, errors and machine sizes\<close>

text \<open>
  A \<open>basic_string_view\<close> holds a raw pointer \<open>_data\<close> and a length \<open>_len\<close>. A pointer is
  either null or points at index \<open>i\<close> of an array object \<open>b\<close> (the backing storage, which
  the view does not own). A read outside the array object is undefined behaviour; it is
  the error value \<open>UB\<close>. \<open>OutOfRange\<close> is the thrown \<open>std::out_of_range\<close>, \<open>AssertFail\<close> a
  failed \<open>assert\<close>, which only a debug build evaluates.
\<close>

datatype error = OutOfRange | AssertFail | UB

datatype build = Debug | Release

datatype 'a ptr = Null | Ptr "'a list" nat

text \<open>
  \<open>size_type\<close> is \<open>std::size_t\<close>, here 64 bits wide: a \<open>nat\<close> below \<open>2 ^ 64\<close>. Unsigned
  arithmetic wraps around; \<open>size_t\<close> is the conversion of a mathematical result to it.
\<close>

definition size_t :: "int \<Rightarrow> nat" where
  "size_t i = nat (i mod 2 ^ 64)"

definition SIZE_MAX :: nat where
  "SIZE_MAX = 2 ^ 64 - 1"

text \<open>Pointer arithmetic \<open>p + n\<close>; the result is checked only when it is read through.\<close>

fun ptr_add :: "'a ptr \<Rightarrow> nat \<Rightarrow> 'a ptr" where
  "ptr_add Null n = Null"
| "ptr_add (Ptr b i) n = Ptr b (i + n)"

text \<open>The read \<open>p[k]\<close>, where \<open>k\<close> may be negative.\<close>

fun rd :: "'a ptr \<Rightarrow> int \<Rightarrow> error + 'a" where
  "rd Null k = Inl UB"
| "rd (Ptr b i) k =
     (let j = int i + k
      in if 0 \<le> j \<and> j < int (length b) then Inr (b ! nat j) else Inl UB)"

text \<open>Reading the whole range \<open>[p, p + n)\<close>, as the library algorithms do.\<close>

fun rd_range :: "'a ptr \<Rightarrow> nat \<Rightarrow> error + 'a list" where
  "rd_range Null n = (if n = 0 then Inr [] else Inl UB)"
| "rd_range (Ptr b i) n = (if i + n \<le> length b then Inr (take n (drop i b)) else Inl UB)"

text \<open>\<open>assert(c)\<close>: checked in a debug build, absent from a release build.\<close>

fun assert_that :: "build \<Rightarrow> bool \<Rightarrow> error + unit" where
  "assert_that Debug c = (if c then Inr () else Inl AssertFail)"
| "assert_that Release c = Inr ()"

text \<open>Sequencing of two fallible steps: the first error ends the evaluation.\<close>

fun and_then :: "error + 'a \<Rightarrow> ('a \<Rightarrow> error + 'b) \<Rightarrow> error + 'b" where
  "and_then (Inl e) f = Inl e"
| "and_then (Inr x) f = f x"

section \<open>The view\<close>

record 'a basic_string_view =
  data :: "'a ptr"
  len :: nat

text \<open>
  The invariant of the data model: the characters \<open>[data, data + len)\<close> lie inside the
  backing storage, a null view has length 0, and the length is a \<open>size_type\<close> value, as
  is the size of the backing array, which fits the address space.
\<close>

definition wf_view :: "'a basic_string_view \<Rightarrow> bool" where
  "wf_view v =
     (len v \<le> SIZE_MAX \<and>
      (case data v of
         Null \<Rightarrow> len v = 0
       | Ptr b i \<Rightarrow> i + len v \<le> length b \<and> length b \<le> SIZE_MAX))"

text \<open>The default constructor and the constructor from \<open>(chars, len)\<close>.\<close>

definition empty_view :: "'a basic_string_view" where
  "empty_view = \<lparr>data = Null, len = 0\<rparr>"

definition view_of :: "'a ptr \<Rightarrow> nat \<Rightarrow> 'a basic_string_view" where
  "view_of chars n = \<lparr>data = chars, len = (if chars \<noteq> Null then n else 0)\<rparr>"

definition size_sv :: "'a basic_string_view \<Rightarrow> nat" where
  "size_sv v = len v"

subsection \<open>Private helpers\<close>

definition offset :: "'a basic_string_view \<Rightarrow> nat \<Rightarrow> 'a ptr" where
  "offset v pos = ptr_add (data v) (if pos \<ge> size_sv v then size_sv v else pos)"

definition tail :: "'a basic_string_view \<Rightarrow> nat \<Rightarrow> nat option \<Rightarrow> nat" where
  "tail v pos n =
     (case n of
        None \<Rightarrow> size_t (int (size_sv v) - int pos)
      | Some k \<Rightarrow>
          if size_t (int k + int pos) > size_sv v
          then size_t (int (size_sv v) - int pos) else k)"

definition assertNonNull :: "build \<Rightarrow> 'a basic_string_view \<Rightarrow> error + unit" where
  "assertNonNull bld v = assert_that bld (data v \<noteq> Null)"

definition assertNonEmpty :: "build \<Rightarrow> 'a basic_string_view \<Rightarrow> error + unit" where
  "assertNonEmpty bld v = assert_that bld (len v > 0)"

definition checkPosition :: "'a basic_string_view \<Rightarrow> nat \<Rightarrow> error + unit" where
  "checkPosition v pos = (if pos \<ge> size_sv v then Inl OutOfRange else Inr ())"

subsection \<open>Element access and sub-views\<close>

definition index_op :: "build \<Rightarrow> 'a basic_string_view \<Rightarrow> nat \<Rightarrow> error + 'a" where
  "index_op bld v pos =
     and_then (assertNonNull bld v) (\<lambda>_.
     and_then (assertNonEmpty bld v) (\<lambda>_.
     rd (data v) (int pos)))"

definition substr :: "'a basic_string_view \<Rightarrow> nat \<Rightarrow> nat option \<Rightarrow> error + 'a basic_string_view" where
  "substr v pos n =
     and_then (checkPosition v pos) (\<lambda>_. Inr (view_of (offset v pos) (tail v pos n)))"

subsection \<open>Comparison\<close>

text \<open>
  \<open>Traits::compare(p, q, n)\<close> of \<open>std::char_traits\<close>: the lexicographic order of the two
  ranges of \<open>n\<close> characters, both of which it may read in full. Only the sign of its result
  is specified; the model returns \<open>-1\<close>, \<open>0\<close> or \<open>1\<close>.
\<close>

fun lex_compare :: "'a::linorder list \<Rightarrow> 'a list \<Rightarrow> int" where
  "lex_compare (x # xs) (y # ys) =
     (if x < y then -1 else if y < x then 1 else lex_compare xs ys)"
| "lex_compare _ _ = 0"

definition traits_compare :: "'a::linorder ptr \<Rightarrow> 'a ptr \<Rightarrow> nat \<Rightarrow> error + int" where
  "traits_compare p q n =
     and_then (rd_range p n) (\<lambda>xs.
     and_then (rd_range q n) (\<lambda>ys.
     Inr (lex_compare xs ys)))"

definition compare :: "'a::linorder basic_string_view \<Rightarrow> 'a basic_string_view \<Rightarrow> error + int" where
  "compare v x =
     (let l = min (size_sv v) (size_sv x)
      in if l \<le> 0
         then Inr (if size_sv v = size_sv x then 0 else (if size_sv v < size_sv x then -1 else 1))
         else and_then (traits_compare (data v) (data x) (len v)) (\<lambda>cmp.
              Inr (if cmp \<noteq> 0 then cmp
                   else (if size_sv v = size_sv x then 0
                         else (if size_sv v < size_sv x then -1 else 1)))))"

text \<open>\<open>operator ==\<close>: the sizes are compared first, and \<open>compare\<close> runs only when they agree.\<close>

definition eq_sv :: "'a::linorder basic_string_view \<Rightarrow> 'a basic_string_view \<Rightarrow> error + bool" where
  "eq_sv a b =
     (if size_sv a = size_sv b then and_then (compare a b) (\<lambda>c. Inr (c = 0)) else Inr False)"

subsection \<open>The library algorithms\<close>

text \<open>
  The algorithms of \<open><algorithm>\<close> read the range \<open>[first, last)\<close> only; the range is the
  list of its elements here, and the iterator an algorithm returns is the number of steps
  from \<open>first\<close>, the length of the list standing for \<open>last\<close>.
\<close>

fun std_find_if :: "('a \<Rightarrow> bool) \<Rightarrow> 'a list \<Rightarrow> nat" where
  "std_find_if P [] = 0"
| "std_find_if P (x # xs) = (if P x then 0 else Suc (std_find_if P xs))"

definition std_find_if_not :: "('a \<Rightarrow> bool) \<Rightarrow> 'a list \<Rightarrow> nat" where
  "std_find_if_not P xs = std_find_if (\<lambda>x. \<not> P x) xs"

text \<open>\<open>std::search\<close>: the first occurrence of \<open>ys\<close>, \<open>first\<close> when \<open>ys\<close> is empty.\<close>

fun std_search :: "'a list \<Rightarrow> 'a list \<Rightarrow> nat" where
  "std_search [] ys = 0"
| "std_search (x # xs) ys =
     (if take (length ys) (x # xs) = ys then 0 else Suc (std_search xs ys))"

text \<open>\<open>std::find_end\<close>: the last occurrence of \<open>ys\<close>, \<open>last\<close> when \<open>ys\<close> is empty.\<close>

fun last_match :: "'a list \<Rightarrow> 'a list \<Rightarrow> nat option" where
  "last_match [] ys = None"
| "last_match (x # xs) ys =
     (case last_match xs ys of
        Some i \<Rightarrow> Some (Suc i)
      | None \<Rightarrow> if take (length ys) (x # xs) = ys then Some 0 else None)"

definition std_find_end :: "'a list \<Rightarrow> 'a list \<Rightarrow> nat" where
  "std_find_end xs ys =
     (if ys = [] then length xs
      else (case last_match xs ys of None \<Rightarrow> length xs | Some i \<Rightarrow> i))"

text \<open>\<open>Traits::find(p, n, c)\<close>: where \<open>c\<close> first occurs in \<open>[p, p + n)\<close>, or the null pointer.\<close>

definition traits_find :: "'a ptr \<Rightarrow> nat \<Rightarrow> 'a \<Rightarrow> error + nat option" where
  "traits_find p n c =
     and_then (rd_range p n) (\<lambda>xs.
     Inr (if c \<in> set xs then Some (std_find_if (\<lambda>x. x = c) xs) else None))"

subsection \<open>Iterators\<close>

text \<open>
  An \<open>iterator\<close> is a pointer into the view, kept as its distance from \<open>begin()\<close>, so that
  \<open>end()\<close> is \<open>size()\<close>. A \<open>reverse_iterator\<close> holds its base iterator: \<open>rbegin()\<close> has the
  base \<open>end()\<close>, \<open>rend()\<close> the base \<open>begin()\<close>, incrementing lowers the base, and
  dereferencing reads the character before the base.
\<close>

datatype reverse_iterator = RevIt nat

fun base :: "reverse_iterator \<Rightarrow> nat" where
  "base (RevIt b) = b"

definition rbegin :: "'a basic_string_view \<Rightarrow> reverse_iterator" where
  "rbegin v = RevIt (size_sv v)"

definition rend :: "'a basic_string_view \<Rightarrow> reverse_iterator" where
  "rend v = RevIt 0"

text \<open>The iterator \<open>k\<close> steps after \<open>rbegin()\<close>, and its dereference.\<close>

definition rev_it :: "'a basic_string_view \<Rightarrow> nat \<Rightarrow> reverse_iterator" where
  "rev_it v k = RevIt (size_sv v - k)"

definition deref_fwd :: "'a basic_string_view \<Rightarrow> nat \<Rightarrow> error + 'a" where
  "deref_fwd v k = rd (data v) (int k)"

definition deref_rev :: "'a basic_string_view \<Rightarrow> nat \<Rightarrow> error + 'a" where
  "deref_rev v k = rd (data v) (int (size_sv v) - int k - 1)"

definition forwardIterOffset :: "'a basic_string_view \<Rightarrow> nat \<Rightarrow> nat option" where
  "forwardIterOffset v it = (if it = size_sv v then None else Some it)"

definition reverseIterOffset :: "'a basic_string_view \<Rightarrow> reverse_iterator \<Rightarrow> nat option" where
  "reverseIterOffset v it = (if it = rend v then None else Some (base it - 1))"

text \<open>
  \<open>findNotOf(first, last, s)\<close>, for either kind of iterator: \<open>deref k\<close> reads the iterator
  \<open>k\<close> steps after the start of the range, \<open>first\<close> counts the steps taken and the third
  argument is the distance left to \<open>last\<close>. The loop test \<open>first++ != last\<close> compares and
  then advances, so that the body reads the element after the one compared.
\<close>

fun findNotOf ::
  "(nat \<Rightarrow> error + 'a) \<Rightarrow> nat \<Rightarrow> nat \<Rightarrow> 'a basic_string_view \<Rightarrow> error + nat" where
  "findNotOf deref first 0 s = Inr first"
| "findNotOf deref first (Suc n) s =
     and_then (deref (Suc first)) (\<lambda>c.
     and_then (traits_find (data s) (size_sv s) c) (\<lambda>r.
     if r = None then Inr (Suc first) else findNotOf deref (Suc first) n s))"

subsection \<open>Searching\<close>

definition find_sv :: "build \<Rightarrow> 'a basic_string_view \<Rightarrow> 'a basic_string_view \<Rightarrow> error + nat option" where
  "find_sv bld v s =
     and_then (assertNonNull bld v) (\<lambda>_.
     and_then (rd_range (data v) (size_sv v)) (\<lambda>xs.
     and_then (rd_range (data s) (size_sv s)) (\<lambda>ys.
     Inr (forwardIterOffset v (std_search xs ys)))))"

definition find_ch :: "build \<Rightarrow> 'a basic_string_view \<Rightarrow> 'a \<Rightarrow> error + nat option" where
  "find_ch bld v ch =
     and_then (assertNonNull bld v) (\<lambda>_.
     and_then (rd_range (data v) (size_sv v)) (\<lambda>xs.
     Inr (forwardIterOffset v (std_find_if (\<lambda>x. x = ch) xs))))"

definition rfind :: "build \<Rightarrow> 'a basic_string_view \<Rightarrow> 'a basic_string_view \<Rightarrow> error + nat option" where
  "rfind bld v s =
     and_then (assertNonNull bld v) (\<lambda>_.
     and_then (rd_range (data v) (size_sv v)) (\<lambda>xs.
     and_then (rd_range (data s) (size_sv s)) (\<lambda>ys.
     Inr (forwardIterOffset v (std_find_end xs ys)))))"

definition rfind_ch :: "build \<Rightarrow> 'a basic_string_view \<Rightarrow> 'a \<Rightarrow> error + nat option" where
  "rfind_ch bld v ch =
     and_then (assertNonNull bld v) (\<lambda>_.
     and_then (rd_range (data v) (size_sv v)) (\<lambda>xs.
     Inr (reverseIterOffset v (rev_it v (std_find_if (\<lambda>x. x = ch) (rev xs))))))"

definition find_first_of_ch :: "build \<Rightarrow> 'a basic_string_view \<Rightarrow> 'a \<Rightarrow> error + nat option" where
  "find_first_of_ch bld v ch = find_ch bld v ch"

definition find_last_of_ch :: "build \<Rightarrow> 'a basic_string_view \<Rightarrow> 'a \<Rightarrow> error + nat option" where
  "find_last_of_ch bld v ch = rfind_ch bld v ch"

definition find_first_not_of ::
  "build \<Rightarrow> 'a basic_string_view \<Rightarrow> 'a basic_string_view \<Rightarrow> error + nat option" where
  "find_first_not_of bld v s =
     and_then (assertNonNull bld v) (\<lambda>_.
     and_then (findNotOf (deref_fwd v) 0 (size_sv v) s) (\<lambda>it.
     Inr (forwardIterOffset v it)))"

definition find_last_not_of ::
  "'a basic_string_view \<Rightarrow> 'a basic_string_view \<Rightarrow> error + nat option" where
  "find_last_not_of v s =
     and_then (findNotOf (deref_rev v) 0 (size_sv v) s) (\<lambda>it.
     Inr (reverseIterOffset v (rev_it v it)))"

text \<open>
  The test \<open>view.substr(j, needle.size()) == needle\<close>: it holds when \<open>substr\<close> returns a
  view and \<open>operator ==\<close> returns true on it.
\<close>

definition matches_at :: "'a::linorder basic_string_view \<Rightarrow> nat \<Rightarrow> 'a basic_string_view \<Rightarrow> bool" where
  "matches_at v j s =
     (case substr v j (Some (size_sv s)) of
        Inl e \<Rightarrow> False
      | Inr r \<Rightarrow> eq_sv r s = Inr True)"

section \<open>Formatted output\<close>

text \<open>
  The part of \<open>std::basic_ostream\<close> that \<open>operator <<\<close> uses: the field width (a signed
  \<open>std::streamsize\<close>), the fill character, the \<open>adjustfield\<close> bits of the format flags, the
  state bits, and the characters its stream buffer has accepted. The buffer takes every
  character it is given and never throws, as that of a string stream does.
\<close>

datatype adjust = Left | Right | Internal | Unset

record 'a ostream =
  width :: int
  fill :: 'a
  adjustfield :: adjust
  badbit :: bool
  failbit :: bool
  eofbit :: bool
  sbuf :: "'a list"

definition good :: "'a ostream \<Rightarrow> bool" where
  "good os = (\<not> badbit os \<and> \<not> failbit os \<and> \<not> eofbit os)"

definition sputn :: "'a ostream \<Rightarrow> 'a list \<Rightarrow> 'a ostream" where
  "sputn os cs = os\<lparr>sbuf := sbuf os @ cs\<rparr>"

definition fill_n :: "'a ostream \<Rightarrow> nat \<Rightarrow> 'a \<Rightarrow> 'a ostream" where
  "fill_n os n c = os\<lparr>sbuf := sbuf os @ replicate n c\<rparr>"

text \<open>
  \<open>operator <<\<close>. The sentry is true exactly when the stream is good. In \<open>width > s.size()\<close>
  and \<open>width - s.size()\<close> the signed width is converted to \<open>size_type\<close>.
\<close>

definition insert_view :: "'a ostream \<Rightarrow> 'a basic_string_view \<Rightarrow> error + 'a ostream" where
  "insert_view os s =
     (if good os
      then and_then (rd_range (data s) (size_sv s)) (\<lambda>cs.
           let w = width os;
               pad = size_t (int (size_t w) - int (size_sv s))
           in Inr ((if size_t w > size_sv s
                    then (if adjustfield os = Left
                          then fill_n (sputn os cs) pad (fill os)
                          else sputn (fill_n os pad (fill os)) cs)
                    else sputn os cs)\<lparr>width := 0\<rparr>))
      else Inr (os\<lparr>failbit := True\<rparr>))"

section \<open>Auxiliary facts\<close>

lemmas sv_defs = size_sv_def checkPosition_def assertNonNull_def assertNonEmpty_def
  offset_def tail_def view_of_def forwardIterOffset_def reverseIterOffset_def
  rbegin_def rend_def rev_it_def deref_fwd_def deref_rev_def

lemma size_t_id: "n \<le> SIZE_MAX \<Longrightarrow> size_t (int n) = n"
  by (simp add: size_t_def SIZE_MAX_def)

lemma size_t_add_small:
  "m + j \<le> SIZE_MAX \<Longrightarrow> size_t (int m + int j) = m + j"
  using size_t_id [of "m + j"] by simp

lemma size_t_sub: "j \<le> n \<Longrightarrow> n \<le> SIZE_MAX \<Longrightarrow> size_t (int n - int j) = n - j"
  using size_t_id [of "n - j"] by (simp add: of_nat_diff)

lemma size_t_add_wrap:
  assumes "SIZE_MAX < m + j" and "m \<le> SIZE_MAX" and "j \<le> SIZE_MAX"
  shows "size_t (int m + int j) < j"
proof -
  have "(int m + int j) mod 2 ^ 64 = (int m + int j - 2 ^ 64) mod 2 ^ 64"
    by simp
  also have "\<dots> = int m + int j - 2 ^ 64"
    using assms by (subst mod_pos_pos_trivial) (simp_all add: SIZE_MAX_def)
  finally show ?thesis
    using assms by (simp add: size_t_def SIZE_MAX_def)
qed

lemma size_t_neg1: "size_t (- 1) = 2 ^ 64 - 1"
  by (simp add: size_t_def)

lemma lex_compare_refl: "lex_compare xs xs = 0"
  by (induction xs) simp_all

lemma lex_compare_eq_0:
  "length xs = length ys \<Longrightarrow> lex_compare xs ys = 0 \<longleftrightarrow> xs = ys"
  by (induction xs ys rule: list_induct2) auto

lemma wf_view_nonnull: "wf_view v \<Longrightarrow> 0 < len v \<Longrightarrow> data v \<noteq> Null"
  by (auto simp: wf_view_def)

lemma rd_range_wf: "wf_view v \<Longrightarrow> \<exists>xs. rd_range (data v) (len v) = Inr xs \<and> length xs = len v"
  by (cases "data v") (auto simp: wf_view_def)

lemma assertNonNull_ok: "data v \<noteq> Null \<Longrightarrow> assertNonNull bld v = Inr ()"
  by (cases bld) (simp_all add: assertNonNull_def)

section \<open>Sub-views\<close>

text \<open>
  C6. \<open>substr(pos, n)\<close> throws \<open>std::out_of_range\<close> exactly when \<open>pos \<ge> size()\<close>: it
  throws at \<open>pos = size()\<close> for every view and every \<open>n\<close>, the empty view with
  \<open>pos = size() = 0\<close> included, and returns a view, raising nothing, when \<open>pos < size()\<close>.
\<close>

theorem substr_out_of_range_iff:
  "(substr v pos n = Inl OutOfRange \<longleftrightarrow> pos \<ge> size_sv v) \<and>
   substr v (size_sv v) n = Inl OutOfRange \<and>
   (size_sv v = 0 \<longrightarrow> substr v 0 n = Inl OutOfRange) \<and>
   (pos < size_sv v \<longrightarrow> (\<exists>r. substr v pos n = Inr r))"
  by (simp add: substr_def checkPosition_def)

theorem substr_out_of_range_iff_witness:
  "substr \<lparr>data = Ptr ''abc'' 0, len = 3\<rparr> 3 (Some 1) = Inl OutOfRange \<and>
   substr \<lparr>data = Ptr [CHR 0x00] 0, len = 0\<rparr> 0 None = Inl OutOfRange \<and>
   (\<exists>r. substr \<lparr>data = Ptr ''abc'' 0, len = 3\<rparr> 2 (Some 1) = Inr r)"
  using substr_out_of_range_iff [of "\<lparr>data = Ptr ''abc'' 0, len = 3\<rparr>" 3 "Some 1"]
    substr_out_of_range_iff [of "\<lparr>data = Ptr [CHR 0x00] 0, len = 0\<rparr>" 0 None]
    substr_out_of_range_iff [of "\<lparr>data = Ptr ''abc'' 0, len = 3\<rparr>" 2 "Some 1"]
  by (simp add: size_sv_def)

text \<open>
  C4. For every well-formed view of positive length, \<open>substr(0)\<close> throws nothing, returns
  the view itself, and the result compares equal to the view. (A view of length 0 is
  excluded: there \<open>substr(0)\<close> fails the position check, the data pointer being null or
  not.)
\<close>

theorem substr_0_compare:
  assumes "wf_view v" and "0 < len v"
  shows "\<exists>r. substr v 0 None = Inr r \<and> r = v \<and> compare r v = Inr 0"
proof -
  obtain b i where p: "data v = Ptr b i"
    using wf_view_nonnull [OF assms] by (cases "data v") auto
  have le: "len v \<le> SIZE_MAX" and inb: "i + len v \<le> length b"
    using assms(1) p by (simp_all add: wf_view_def)
  have "substr v 0 None = Inr v"
    using assms(2) p le by (simp add: substr_def sv_defs size_t_id)
  moreover have "compare v v = Inr 0"
    using assms(2) p inb by (simp add: compare_def traits_compare_def sv_defs lex_compare_refl)
  ultimately show ?thesis by simp
qed

theorem substr_0_compare_witness:
  "\<exists>r. substr \<lparr>data = Ptr ''abc'' 0, len = 3\<rparr> 0 None = Inr r \<and>
       r = \<lparr>data = Ptr ''abc'' 0, len = 3\<rparr> \<and>
       compare r \<lparr>data = Ptr ''abc'' 0, len = 3\<rparr> = Inr 0"
proof -
  have "wf_view \<lparr>data = Ptr ''abc'' 0, len = 3\<rparr>"
    by (simp add: wf_view_def SIZE_MAX_def)
  from substr_0_compare [OF this] show ?thesis by simp
qed

theorem substr_0_empty_anchored_throws:
  "data \<lparr>data = Ptr [CHR 0x00] 0, len = 0\<rparr> \<noteq> Null \<and>
   wf_view \<lparr>data = Ptr [CHR 0x00] 0, len = 0\<rparr> \<and>
   substr \<lparr>data = Ptr [CHR 0x00] 0, len = 0\<rparr> 0 None = Inl OutOfRange"
  by (simp add: substr_def sv_defs wf_view_def SIZE_MAX_def)

text \<open>
  C5. The length of a sub-view when the requested length is \<open>SIZE_MAX\<close>: on the view
  \<open>abc\<close>, \<open>substr(1, SIZE_MAX)\<close> returns a view of \<open>SIZE_MAX\<close> characters, not the two that
  remain after position 1. The sum \<open>*n + pos\<close> in \<open>tail\<close> wraps around to 0, which is not
  greater than \<open>size()\<close>, and so the requested length is kept as it is.
\<close>

theorem substr_length_wraps:
  "substr \<lparr>data = Ptr ''abc'' 0, len = 3\<rparr> 1 (Some SIZE_MAX) =
     Inr \<lparr>data = Ptr ''abc'' 1, len = SIZE_MAX\<rparr> \<and>
   min SIZE_MAX (len \<lparr>data = Ptr ''abc'' 0, len = 3\<rparr> - 1) = 2"
  by (simp add: substr_def sv_defs size_t_def SIZE_MAX_def)

text \<open>Where the sum does not wrap, the sub-view has the length the documentation gives.\<close>

lemma substr_size_no_wrap:
  assumes "pos < len v" and "len v \<le> SIZE_MAX" and "data v \<noteq> Null"
    and "\<forall>k. n = Some k \<longrightarrow> k + pos \<le> SIZE_MAX"
  shows "\<exists>r. substr v pos n = Inr r \<and>
           size_sv r = min (case n of None \<Rightarrow> len v - pos | Some k \<Rightarrow> k) (len v - pos)"
proof -
  obtain b p where p: "data v = Ptr b p"
    using assms(3) by (cases "data v") auto
  have sub: "size_t (int (len v) - int pos) = len v - pos"
    using assms(1,2) by (intro size_t_sub) simp_all
  show ?thesis
  proof (cases n)
    case None
    then show ?thesis
      using assms(1) p sub by (simp add: substr_def sv_defs)
  next
    case (Some k)
    then have "size_t (int k + int pos) = k + pos"
      using assms(4) by (intro size_t_add_small) simp
    then show ?thesis
      using Some assms(1) p sub by (auto simp: substr_def sv_defs)
  qed
qed

section \<open>Element access\<close>

text \<open>
  C7. In a debug build \<open>operator[](pos)\<close> asserts that the view is not null and that its
  length is not 0, and nothing about \<open>pos\<close>: on a null view and on a view of length 0 the
  assertion fails for every \<open>pos\<close>; on a non-null view of positive length no assertion
  fails, whatever \<open>pos\<close> is, and the result is that of reading \<open>_data[pos]\<close>.
\<close>

theorem index_op_debug_assertions:
  "(data v = Null \<longrightarrow> index_op Debug v pos = Inl AssertFail) \<and>
   (len v = 0 \<longrightarrow> index_op Debug v pos = Inl AssertFail) \<and>
   (data v \<noteq> Null \<and> 0 < len v \<longrightarrow>
      index_op Debug v pos = rd (data v) (int pos) \<and> index_op Debug v pos \<noteq> Inl AssertFail)"
  by (cases "data v") (simp_all add: index_op_def sv_defs Let_def)

theorem index_op_debug_assertions_witness:
  "index_op Debug \<lparr>data = Null, len = 0\<rparr> 0 = (Inl AssertFail :: error + char) \<and>
   index_op Debug \<lparr>data = Ptr [CHR 0x00] 0, len = 0\<rparr> 0 = Inl AssertFail \<and>
   index_op Debug \<lparr>data = Ptr ''abc'' 0, len = 3\<rparr> 1 = Inr (CHR ''b'')"
  using index_op_debug_assertions [of "\<lparr>data = Null, len = 0\<rparr> :: char basic_string_view" 0]
    index_op_debug_assertions [of "\<lparr>data = Ptr [CHR 0x00] 0, len = 0\<rparr>" 0]
    index_op_debug_assertions [of "\<lparr>data = Ptr ''abc'' 0, len = 3\<rparr>" 1]
  by simp

theorem index_op_debug_past_length:
  "data \<lparr>data = Ptr ''abcdef'' 0, len = 3\<rparr> \<noteq> Null \<and>
   len \<lparr>data = Ptr ''abcdef'' 0, len = 3\<rparr> \<le> 4 \<and>
   index_op Debug \<lparr>data = Ptr ''abcdef'' 0, len = 3\<rparr> 4 = Inr (CHR ''e'')"
  by (simp add: index_op_def sv_defs)

section \<open>Comparison\<close>

text \<open>
  C1. \<open>compare\<close> on two views with the same first two characters, \<open>abc\<close> and the first two
  characters of the array \<open>abz\<close>: the shorter view should sort first, so that
  \<open>a.compare(b)\<close> is positive and \<open>b.compare(a)\<close> negative. Both are negative:
  \<open>Traits::compare\<close> is called with \<open>_len\<close>, the length of the receiver, not with the
  minimum \<open>len\<close> of the two lengths, and reads the \<open>z\<close> after the end of the shorter view.
\<close>

theorem compare_reads_past_shorter:
  "rd_range (data \<lparr>data = Ptr ''abc'' 0, len = 3\<rparr>) 2 =
     rd_range (data \<lparr>data = Ptr ''abz'' 0, len = 2\<rparr>) 2 \<and>
   compare \<lparr>data = Ptr ''abc'' 0, len = 3\<rparr> \<lparr>data = Ptr ''abz'' 0, len = 2\<rparr> = Inr (- 1) \<and>
   compare \<lparr>data = Ptr ''abz'' 0, len = 2\<rparr> \<lparr>data = Ptr ''abc'' 0, len = 3\<rparr> = Inr (- 1)"
  by (simp add: compare_def traits_compare_def sv_defs less_char_def)

text \<open>
  The result 0 is right on well-formed views: \<open>compare\<close> returns 0 exactly when the two
  views have the same length and the same characters.
\<close>

lemma compare_eq_0_iff:
  assumes "wf_view a" and "wf_view b"
    and xs: "rd_range (data a) (len a) = Inr xs" and ys: "rd_range (data b) (len b) = Inr ys"
  shows "compare a b = Inr 0 \<longleftrightarrow> len a = len b \<and> xs = ys"
proof (cases "len a = len b")
  case True
  have l: "length xs = len a" "length ys = len b"
    using rd_range_wf [OF assms(1)] rd_range_wf [OF assms(2)] xs ys by auto
  show ?thesis
  proof (cases "len a = 0")
    case True
    with \<open>len a = len b\<close> l show ?thesis
      by (simp add: compare_def size_sv_def)
  next
    case False
    with True xs ys l show ?thesis
      by (simp add: compare_def traits_compare_def size_sv_def lex_compare_eq_0)
  qed
next
  case False
  have "compare a b \<noteq> Inr 0"
  proof (cases "rd_range (data b) (len a)")
    case (Inl e)
    with False xs show ?thesis
      by (auto simp: compare_def traits_compare_def size_sv_def Let_def)
  next
    case (Inr zs)
    with False xs show ?thesis
      by (auto simp: compare_def traits_compare_def size_sv_def Let_def)
  qed
  with False show ?thesis by simp
qed

section \<open>Searching\<close>

text \<open>
  C10. The single-character variants are the plain searches: \<open>find_first_of(c)\<close> returns
  what \<open>find(c)\<close> returns and \<open>find_last_of(c)\<close> what \<open>rfind(c)\<close> returns, on every view and
  in either build.
\<close>

theorem find_of_ch_is_find_ch:
  "find_first_of_ch bld v c = find_ch bld v c \<and> find_last_of_ch bld v c = rfind_ch bld v c"
  by (simp add: find_first_of_ch_def find_last_of_ch_def)

text \<open>
  C3. On a well-formed, non-null view the search for an empty sub-view returns position 0
  when the receiver has a character, and nothing when the receiver has length 0: the
  iterator \<open>std::search\<close> returns is \<open>begin()\<close>, which is \<open>end()\<close> on an empty receiver, and
  \<open>forwardIterOffset\<close> turns \<open>end()\<close> into the empty optional.
\<close>

theorem find_empty_needle:
  assumes "wf_view v" and "data v \<noteq> Null" and "wf_view s" and "len s = 0"
  shows "find_sv bld v s = Inr (if len v = 0 then None else Some 0)"
proof -
  obtain xs where xs: "rd_range (data v) (len v) = Inr xs" "length xs = len v"
    using rd_range_wf [OF assms(1)] by blast
  have ys: "rd_range (data s) (len s) = Inr []"
    using rd_range_wf [OF assms(3)] assms(4) by auto
  have "std_search xs [] = 0"
    by (cases xs) simp_all
  with xs ys assms(2) show ?thesis
    by (cases bld) (simp_all add: find_sv_def sv_defs)
qed

theorem find_empty_needle_witness:
  "find_sv Debug \<lparr>data = Ptr ''ab'' 0, len = 2\<rparr> \<lparr>data = Null, len = 0\<rparr> = Inr (Some 0)"
  using find_empty_needle [of "\<lparr>data = Ptr ''ab'' 0, len = 2\<rparr>" "\<lparr>data = Null, len = 0\<rparr>" Debug]
  by (simp add: wf_view_def SIZE_MAX_def)

theorem find_empty_needle_in_empty:
  "data \<lparr>data = Ptr [CHR 0x00] 0, len = 0\<rparr> \<noteq> Null \<and>
   find_sv Debug \<lparr>data = Ptr [CHR 0x00] 0, len = 0\<rparr> \<lparr>data = Null, len = 0\<rparr> = Inr None \<and>
   find_sv Debug \<lparr>data = Ptr [CHR 0x00] 0, len = 0\<rparr> \<lparr>data = Null, len = 0\<rparr> \<noteq> Inr (Some 0)"
  by (simp add: find_sv_def sv_defs)

text \<open>The library searches on lists: what they return, and that nothing comes before (after).\<close>

lemma std_search_le: "std_search xs ys \<le> length xs"
  by (induction xs) simp_all

lemma std_search_found:
  "std_search xs ys < length xs \<Longrightarrow> take (length ys) (drop (std_search xs ys) xs) = ys"
  by (induction xs) (simp_all split: if_splits)

lemma std_search_first:
  "j < std_search xs ys \<Longrightarrow> take (length ys) (drop j xs) \<noteq> ys"
proof (induction xs arbitrary: j)
  case Nil
  then show ?case by simp
next
  case (Cons x xs)
  then show ?case
    by (cases j) (simp_all split: if_splits)
qed

lemma last_match_Some:
  "last_match xs ys = Some i \<Longrightarrow> i < length xs \<and> take (length ys) (drop i xs) = ys"
proof (induction xs arbitrary: i)
  case Nil
  then show ?case by simp
next
  case (Cons x xs)
  then show ?case
    by (cases "last_match xs ys") (auto split: if_splits)
qed

lemma last_match_None:
  "last_match xs ys = None \<Longrightarrow> ys \<noteq> [] \<Longrightarrow> take (length ys) (drop j xs) \<noteq> ys"
proof (induction xs arbitrary: j)
  case Nil
  then show ?case by auto
next
  case (Cons x xs)
  then show ?case
    by (cases j) (auto split: option.splits if_splits)
qed

lemma last_match_last:
  "last_match xs ys = Some i \<Longrightarrow> i < j \<Longrightarrow> ys \<noteq> [] \<Longrightarrow> take (length ys) (drop j xs) \<noteq> ys"
proof (induction xs arbitrary: i j)
  case Nil
  then show ?case by simp
next
  case (Cons x xs)
  obtain j' where j: "j = Suc j'"
    using Cons.prems(2) by (cases j) auto
  show ?case
  proof (cases "last_match xs ys")
    case None
    then show ?thesis
      using last_match_None [OF None Cons.prems(3), of j'] j by simp
  next
    case (Some k)
    with Cons.prems(1) have "i = Suc k" by simp
    with Cons.prems(2) j have "k < j'" by simp
    from Cons.IH [OF Some this Cons.prems(3)] j show ?thesis by simp
  qed
qed

text \<open>
  The test \<open>view.substr(j, needle.size()) == needle\<close> holds exactly when the needle occurs
  at position \<open>j\<close> of the characters of the view.
\<close>

lemma matches_at_iff:
  assumes v: "data v = Ptr b p" "p + len v \<le> length b" "length b \<le> SIZE_MAX"
    and s: "rd_range (data s) (len s) = Inr ys" "length ys = len s" "0 < len s" "len s \<le> SIZE_MAX"
  shows "matches_at v j s \<longleftrightarrow> take (len s) (drop j (take (len v) (drop p b))) = ys"
proof -
  let ?n = "len v" and ?m = "len s"
  have n: "?n \<le> SIZE_MAX" using v by simp
  consider (out) "?n \<le> j" | (fits) "j + ?m \<le> ?n" | (long) "j < ?n" "?n < j + ?m" "j + ?m \<le> SIZE_MAX"
    | (wrap) "j < ?n" "SIZE_MAX < j + ?m"
    by linarith
  then show ?thesis
  proof cases
    case out
    then have "\<not> matches_at v j s"
      by (simp add: matches_at_def substr_def sv_defs)
    moreover have "take ?m (drop j (take ?n (drop p b))) \<noteq> ys"
      using out s by auto
    ultimately show ?thesis by simp
  next
    case fits
    then have j: "j < ?n" using s by simp
    have t: "tail v j (Some ?m) = ?m"
      using fits n size_t_add_small [of ?m j] by (simp add: sv_defs)
    have sub: "substr v j (Some ?m) = Inr \<lparr>data = Ptr b (p + j), len = ?m\<rparr>"
      using j v t by (simp add: substr_def checkPosition_def size_sv_def offset_def view_of_def)
    have inb: "p + j + ?m \<le> length b" using fits v by simp
    have "eq_sv \<lparr>data = Ptr b (p + j), len = ?m\<rparr> s = Inr (take ?m (drop (p + j) b) = ys)"
      using s inb
      by (simp add: eq_sv_def compare_def traits_compare_def size_sv_def lex_compare_eq_0)
    moreover have "take ?m (drop j (take ?n (drop p b))) = take ?m (drop (p + j) b)"
      using fits by (simp add: drop_take min_def add.commute)
    ultimately show ?thesis
      using sub by (simp add: matches_at_def size_sv_def)
  next
    case long
    have t: "tail v j (Some ?m) = ?n - j"
      using long n size_t_add_small [of ?m j] size_t_sub [of j ?n]
      by (simp add: sv_defs add.commute)
    have sub: "substr v j (Some ?m) = Inr \<lparr>data = Ptr b (p + j), len = ?n - j\<rparr>"
      using long v t by (simp add: substr_def checkPosition_def size_sv_def offset_def view_of_def)
    have "?n - j \<noteq> ?m" using long by linarith
    then have "eq_sv \<lparr>data = Ptr b (p + j), len = ?n - j\<rparr> s = Inr False"
      by (simp add: eq_sv_def size_sv_def)
    then have "\<not> matches_at v j s"
      using sub by (simp add: matches_at_def size_sv_def)
    moreover have "length (take ?m (drop j (take ?n (drop p b)))) < ?m"
      using long v by simp
    then have "take ?m (drop j (take ?n (drop p b))) \<noteq> ys"
      using s by auto
    ultimately show ?thesis by simp
  next
    case wrap
    have "size_t (int ?m + int j) < j"
      using wrap s n by (intro size_t_add_wrap) simp_all
    then have t: "tail v j (Some ?m) = ?m"
      using wrap by (simp add: sv_defs)
    have sub: "substr v j (Some ?m) = Inr \<lparr>data = Ptr b (p + j), len = ?m\<rparr>"
      using wrap v t by (simp add: substr_def checkPosition_def size_sv_def offset_def view_of_def)
    have "\<not> p + j + ?m \<le> length b" using wrap v by simp
    then have "eq_sv \<lparr>data = Ptr b (p + j), len = ?m\<rparr> s = Inl UB"
      using s by (simp add: eq_sv_def compare_def traits_compare_def size_sv_def)
    then have "\<not> matches_at v j s"
      using sub by (simp add: matches_at_def size_sv_def)
    moreover have "length (take ?m (drop j (take ?n (drop p b)))) < ?m"
      using wrap v n by simp
    then have "take ?m (drop j (take ?n (drop p b))) \<noteq> ys"
      using s by auto
    ultimately show ?thesis by simp
  qed
qed

text \<open>
  C8. On a well-formed, non-null view and a well-formed, non-empty needle, \<open>find\<close> and
  \<open>rfind\<close> return a result; if \<open>find(needle)\<close> returns position \<open>i\<close>, then
  \<open>view.substr(i, needle.size()) == needle\<close> and the test fails at every \<open>j < i\<close>; if
  \<open>rfind(needle)\<close> returns position \<open>i\<close>, the test holds at \<open>i\<close> and fails at every \<open>j > i\<close>.
\<close>

theorem find_rfind_round_trip:
  assumes "wf_view v" and "data v \<noteq> Null" and "wf_view s" and "0 < len s"
  shows "(\<exists>r. find_sv bld v s = Inr r) \<and> (\<exists>r. rfind bld v s = Inr r) \<and>
         (find_sv bld v s = Inr (Some i) \<longrightarrow>
            matches_at v i s \<and> (\<forall>j<i. \<not> matches_at v j s)) \<and>
         (rfind bld v s = Inr (Some i) \<longrightarrow>
            matches_at v i s \<and> (\<forall>j>i. \<not> matches_at v j s))"
proof -
  obtain b p where p: "data v = Ptr b p"
    using assms(2) by (cases "data v") auto
  have bounds: "p + len v \<le> length b" "length b \<le> SIZE_MAX"
    using assms(1) p by (simp_all add: wf_view_def)
  define xs where "xs = take (len v) (drop p b)"
  have xs: "rd_range (data v) (len v) = Inr xs" "length xs = len v"
    using p bounds by (simp_all add: xs_def)
  obtain ys where ys: "rd_range (data s) (len s) = Inr ys" "length ys = len s"
    using rd_range_wf [OF assms(3)] by blast
  have m: "len s \<le> SIZE_MAX"
    using assms(3) by (simp add: wf_view_def)
  have nonempty: "ys \<noteq> []"
    using ys assms(4) by auto
  have at: "matches_at v j s \<longleftrightarrow> take (length ys) (drop j xs) = ys" for j
    using matches_at_iff [OF p bounds ys assms(4) m] ys(2) by (simp add: xs_def)
  have f: "find_sv bld v s = Inr (forwardIterOffset v (std_search xs ys))"
    using xs ys assertNonNull_ok [OF assms(2)] by (simp add: find_sv_def size_sv_def)
  have r: "rfind bld v s = Inr (forwardIterOffset v (std_find_end xs ys))"
    using xs ys assertNonNull_ok [OF assms(2)] by (simp add: rfind_def size_sv_def)
  have fwd: "matches_at v i s \<and> (\<forall>j<i. \<not> matches_at v j s)"
    if "find_sv bld v s = Inr (Some i)"
  proof -
    from that f have i: "std_search xs ys = i" "i \<noteq> length xs"
      using xs(2) by (simp_all add: forwardIterOffset_def size_sv_def split: if_splits)
    then have "i < length xs"
      using std_search_le [of xs ys] by simp
    with i show ?thesis
      using std_search_found [of xs ys] std_search_first [of _ xs ys] by (simp add: at)
  qed
  have bwd: "matches_at v i s \<and> (\<forall>j>i. \<not> matches_at v j s)"
    if "rfind bld v s = Inr (Some i)"
  proof -
    from that r have "std_find_end xs ys = i" "i \<noteq> length xs"
      using xs(2) by (simp_all add: forwardIterOffset_def size_sv_def split: if_splits)
    then have "last_match xs ys = Some i"
      using nonempty by (simp add: std_find_end_def split: option.splits)
    then show ?thesis
      using last_match_Some [of xs ys i] last_match_last [of xs ys i] nonempty
      by (simp add: at)
  qed
  show ?thesis
    using f r fwd bwd by blast
qed

theorem find_rfind_round_trip_witness:
  "find_sv Debug \<lparr>data = Ptr ''abcabc'' 0, len = 6\<rparr> \<lparr>data = Ptr ''bc'' 0, len = 2\<rparr> = Inr (Some 1) \<and>
   matches_at \<lparr>data = Ptr ''abcabc'' 0, len = 6\<rparr> 1 \<lparr>data = Ptr ''bc'' 0, len = 2\<rparr> \<and>
   \<not> matches_at \<lparr>data = Ptr ''abcabc'' 0, len = 6\<rparr> 0 \<lparr>data = Ptr ''bc'' 0, len = 2\<rparr> \<and>
   rfind Debug \<lparr>data = Ptr ''abcabc'' 0, len = 6\<rparr> \<lparr>data = Ptr ''bc'' 0, len = 2\<rparr> = Inr (Some 4) \<and>
   matches_at \<lparr>data = Ptr ''abcabc'' 0, len = 6\<rparr> 4 \<lparr>data = Ptr ''bc'' 0, len = 2\<rparr> \<and>
   \<not> matches_at \<lparr>data = Ptr ''abcabc'' 0, len = 6\<rparr> 5 \<lparr>data = Ptr ''bc'' 0, len = 2\<rparr>"
proof -
  let ?v = "\<lparr>data = Ptr ''abcabc'' 0, len = 6\<rparr>" and ?s = "\<lparr>data = Ptr ''bc'' 0, len = 2\<rparr>"
  have wf: "wf_view ?v" "data ?v \<noteq> Null" "wf_view ?s" "0 < len ?s"
    by (simp_all add: wf_view_def SIZE_MAX_def)
  have f: "find_sv Debug ?v ?s = Inr (Some 1)"
    by (simp add: find_sv_def sv_defs)
  have r: "rfind Debug ?v ?s = Inr (Some 4)"
    by (simp add: rfind_def std_find_end_def sv_defs)
  show ?thesis
    using find_rfind_round_trip [OF wf, of Debug 1] find_rfind_round_trip [OF wf, of Debug 4] f r
    by simp
qed

text \<open>
  C2. \<open>find_first_not_of\<close> and \<open>find_last_not_of\<close> with the set \<open>ab\<close>. On \<open>xab\<close> the first
  character is not in the set, and the forward search finds nothing: \<open>findNotOf\<close> advances
  before it reads, so the first character of the range is never tested and the character
  after the range (the terminator here) is. On \<open>abx\<close> the last character is not in the
  set, and the reverse search finds nothing either on a view that has a character before
  it in its array; when the view starts its array, the search reads before the array.
\<close>

theorem find_not_of_skips_first:
  "rd (data \<lparr>data = Ptr (''xab'' @ [CHR 0x00]) 0, len = 3\<rparr>) 0 = Inr (CHR ''x'') \<and>
   CHR ''x'' \<notin> set ''ab'' \<and>
   find_first_not_of Debug \<lparr>data = Ptr (''xab'' @ [CHR 0x00]) 0, len = 3\<rparr>
     \<lparr>data = Ptr ''ab'' 0, len = 2\<rparr> = Inr None \<and>
   rd (data \<lparr>data = Ptr (''zabx'' @ [CHR 0x00]) 1, len = 3\<rparr>) 2 = Inr (CHR ''x'') \<and>
   find_last_not_of \<lparr>data = Ptr (''zabx'' @ [CHR 0x00]) 1, len = 3\<rparr>
     \<lparr>data = Ptr ''ab'' 0, len = 2\<rparr> = Inr None \<and>
   find_last_not_of \<lparr>data = Ptr (''abx'' @ [CHR 0x00]) 0, len = 3\<rparr>
     \<lparr>data = Ptr ''ab'' 0, len = 2\<rparr> = Inl UB"
  by (simp add: find_first_not_of_def find_last_not_of_def traits_find_def sv_defs
      numeral_3_eq_3)

section \<open>Formatted output\<close>

text \<open>
  C9. Writing the view \<open>ab\<close> to a good stream whose field width is \<open>-1\<close>: the content is
  longer than the width, and yet \<open>2 ^ 64 - 3\<close> fill characters are written before it. The
  signed width is converted to \<open>size_type\<close> in \<open>width > s.size()\<close> and in
  \<open>width - s.size()\<close>.
\<close>

theorem insert_view_negative_width:
  "insert_view \<lparr>width = - 1, fill = CHR ''*'', adjustfield = Right, badbit = False,
      failbit = False, eofbit = False, sbuf = []\<rparr> \<lparr>data = Ptr ''ab'' 0, len = 2\<rparr> =
   Inr \<lparr>width = 0, fill = CHR ''*'', adjustfield = Right, badbit = False,
      failbit = False, eofbit = False, sbuf = replicate (2 ^ 64 - 3) (CHR ''*'') @ ''ab''\<rparr>"
proof -
  have "size_t (int (size_t (- 1)) - 2) = 2 ^ 64 - 3"
    by (simp add: size_t_def)
  then show ?thesis
    by (simp add: insert_view_def good_def size_sv_def sputn_def fill_n_def size_t_neg1 Let_def)
qed

text \<open>
  With a width that is not negative the stream is padded as the formatted output of a
  character sequence is: fill characters on the deficit side when the view is shorter than
  the width, none otherwise, and the width is 0 afterwards.
\<close>

lemma insert_view_padding:
  assumes "good os" and "0 \<le> width os" and "width os < 2 ^ 63" and "wf_view s"
    and "rd_range (data s) (len s) = Inr cs"
  shows "insert_view os s =
     Inr (os\<lparr>sbuf := sbuf os @
            (if int (len s) < width os
             then (if adjustfield os = Left
                   then cs @ replicate (nat (width os) - len s) (fill os)
                   else replicate (nat (width os) - len s) (fill os) @ cs)
             else cs),
           width := 0\<rparr>)"
proof -
  have w: "size_t (width os) = nat (width os)"
    using assms(2,3) by (simp add: size_t_def)
  have le: "len s \<le> SIZE_MAX"
    using assms(4) by (simp add: wf_view_def)
  have "size_t (int (nat (width os)) - int (len s)) = nat (width os) - len s"
    if "int (len s) < width os"
    using that assms(2,3) size_t_sub [of "len s" "nat (width os)"]
    by (simp add: SIZE_MAX_def)
  then show ?thesis
    using assms(1,2,5) w
    by (auto simp: insert_view_def size_sv_def sputn_def fill_n_def Let_def)
qed

lemma insert_view_right:
  "insert_view \<lparr>width = 5, fill = CHR ''*'', adjustfield = Right, badbit = False,
      failbit = False, eofbit = False, sbuf = []\<rparr> \<lparr>data = Ptr ''ab'' 0, len = 2\<rparr> =
   Inr \<lparr>width = 0, fill = CHR ''*'', adjustfield = Right, badbit = False,
      failbit = False, eofbit = False, sbuf = ''***ab''\<rparr>"
  using insert_view_padding [of "\<lparr>width = 5, fill = CHR ''*'', adjustfield = Right, badbit = False,
      failbit = False, eofbit = False, sbuf = []\<rparr>" "\<lparr>data = Ptr ''ab'' 0, len = 2\<rparr>" "''ab''"]
  by (simp add: good_def wf_view_def SIZE_MAX_def numeral_3_eq_3)

lemma insert_view_left:
  "insert_view \<lparr>width = 5, fill = CHR ''*'', adjustfield = Left, badbit = False,
      failbit = False, eofbit = False, sbuf = []\<rparr> \<lparr>data = Ptr ''ab'' 0, len = 2\<rparr> =
   Inr \<lparr>width = 0, fill = CHR ''*'', adjustfield = Left, badbit = False,
      failbit = False, eofbit = False, sbuf = ''ab***''\<rparr>"
  using insert_view_padding [of "\<lparr>width = 5, fill = CHR ''*'', adjustfield = Left, badbit = False,
      failbit = False, eofbit = False, sbuf = []\<rparr>" "\<lparr>data = Ptr ''ab'' 0, len = 2\<rparr>" "''ab''"]
  by (simp add: good_def wf_view_def SIZE_MAX_def numeral_3_eq_3)

end
